theory Spec2Isabelle
  imports Main "HOL-Library.Sublist"
begin

section \<open>Python values and built-ins used by the notebook\<close>

text \<open>
  The notebook \<^verbatim>\<open>financial_analyst.ipynb\<close> is four code cells (extract, chunk, index,
  query), each a \<^verbatim>\<open>try\<close> block with its \<^verbatim>\<open>except\<close> handlers. A Python \<^verbatim>\<open>str\<close> is
  modelled as a \<open>string\<close>, one \<open>char\<close> per character, so the model covers text whose
  code points are below 256. An exception is a value carrying the text that \<^verbatim>\<open>str(e)\<close>
  gives; \<open>FileNotFoundError\<close> and \<open>IndexError\<close> are Python's built-in classes, and
  \<open>Exception\<close> stands for every other class, among them \<^verbatim>\<open>RuntimeError\<close> with its
  subclasses and the other \<^verbatim>\<open>OSError\<close>s.
\<close>

datatype exn = FileNotFoundError string | IndexError string | Exception string

fun str_exn :: "exn \<Rightarrow> string" where
  "str_exn (FileNotFoundError m) = m"
| "str_exn (IndexError m) = m"
| "str_exn (Exception m) = m"

text \<open>\<^verbatim>\<open>str(n)\<close> of a non-negative integer, as the f-strings format it.\<close>

fun str_nat :: "nat \<Rightarrow> string" where
  "str_nat n = (if n < 10 then [char_of (48 + n)]
                else str_nat (n div 10) @ [char_of (48 + n mod 10)])"

declare str_nat.simps [simp del]

text \<open>The f-string fragment \<^verbatim>\<open>'{x}'\<close>: the value between two apostrophes.\<close>

definition quoted :: "string \<Rightarrow> string" where
  "quoted s = CHR 0x27 # s @ [CHR 0x27]"

text \<open>
  List indexing \<^verbatim>\<open>xs[i]\<close>: a negative index counts from the end, an index out of range
  raises \<^verbatim>\<open>IndexError\<close>.
\<close>

definition py_index :: "'a list \<Rightarrow> int \<Rightarrow> exn + 'a" where
  "py_index xs i =
     (if 0 \<le> i \<and> i < int (length xs) then Inr (xs ! nat i)
      else if i < 0 \<and> - int (length xs) \<le> i then Inr (xs ! nat (int (length xs) + i))
      else Inl (IndexError ''list index out of range''))"

text \<open>
  \<^verbatim>\<open>str.splitlines()\<close>: the line boundaries below code point 256 are LF, CR, CR LF, VT,
  FF, FS, GS, RS and NEL; the boundaries are not part of the lines and a final
  boundary opens no further line.
\<close>

definition is_linebreak :: "char \<Rightarrow> bool" where
  "is_linebreak c \<longleftrightarrow>
     c \<in> {CHR 0x0A, CHR 0x0B, CHR 0x0C, CHR 0x0D, CHR 0x1C, CHR 0x1D, CHR 0x1E, CHR 0x85}"

fun splitlines_from :: "string \<Rightarrow> string \<Rightarrow> string list" where
  "splitlines_from line [] = (if line = [] then [] else [line])"
| "splitlines_from line (c # cs) =
     (if is_linebreak c then
        (case cs of
           d # ds \<Rightarrow>
             if c = CHR 0x0D \<and> d = CHR 0x0A then line # splitlines_from [] ds
             else line # splitlines_from [] cs
         | [] \<Rightarrow> line # splitlines_from [] cs)
      else splitlines_from (line @ [c]) cs)"

definition str_splitlines :: "string \<Rightarrow> string list" where
  "str_splitlines s = splitlines_from [] s"

text \<open>
  \<^verbatim>\<open>str.split()\<close> without arguments: the words between runs of whitespace
  (\<^verbatim>\<open>str.isspace\<close>), none of them empty.
\<close>

definition is_space :: "char \<Rightarrow> bool" where
  "is_space c \<longleftrightarrow>
     c \<in> {CHR 0x09, CHR 0x0A, CHR 0x0B, CHR 0x0C, CHR 0x0D, CHR 0x1C, CHR 0x1D, CHR 0x1E,
          CHR 0x1F, CHR 0x20, CHR 0x85, CHR 0xA0}"

fun split_from :: "string \<Rightarrow> string \<Rightarrow> string list" where
  "split_from word [] = (if word = [] then [] else [word])"
| "split_from word (c # cs) =
     (if is_space c then (if word = [] then split_from [] cs else word # split_from [] cs)
      else split_from (word @ [c]) cs)"

definition str_split :: "string \<Rightarrow> string list" where
  "str_split s = split_from [] s"

section \<open>Files, standard output and the external libraries\<close>

text \<open>
  The state the cells act on: the files below the working directory (a path is absent
  or holds its content; a folder is there through the files in it) and the lines
  printed so far, one entry per \<^verbatim>\<open>print\<close> call. The caches into which the model
  libraries download lie outside the working directory and are not part of it.
\<close>

type_synonym path = string

record world =
  files :: "path \<rightharpoonup> string"
  stdout :: "string list"

definition print :: "string \<Rightarrow> world \<Rightarrow> world" where
  "print s w = w\<lparr>stdout := stdout w @ [s]\<rparr>"

text \<open>
  Opening a file for reading raises \<^verbatim>\<open>FileNotFoundError\<close> when the path does not exist.
  Whether reading an existing file goes through is an input of the model: \<open>None\<close>, or
  the exception raised instead (a permission or a decoding error).
\<close>

definition read_file :: "exn option \<Rightarrow> path \<Rightarrow> world \<Rightarrow> exn + string" where
  "read_file rf p w =
     (case files w p of
        None \<Rightarrow> Inl (FileNotFoundError (''[Errno 2] No such file or directory: '' @ quoted p))
      | Some s \<Rightarrow> (case rf of Some e \<Rightarrow> Inl e | None \<Rightarrow> Inr s))"

text \<open>
  A file opened in text mode with the default \<^verbatim>\<open>newline\<close> is read with universal
  newlines, CR LF and a lone CR both becoming LF, and written with every LF replaced by
  the platform's line separator.
\<close>

fun universal_newlines :: "string \<Rightarrow> string" where
  "universal_newlines [] = []"
| "universal_newlines (c # cs) =
     (if c = CHR 0x0D then
        (case cs of
           d # ds \<Rightarrow>
             if d = CHR 0x0A then CHR 0x0A # universal_newlines ds
             else CHR 0x0A # universal_newlines cs
         | [] \<Rightarrow> [CHR 0x0A])
      else c # universal_newlines cs)"

definition write_newlines :: "string \<Rightarrow> string \<Rightarrow> string" where
  "write_newlines linesep s = concat (map (\<lambda>c. if c = CHR 0x0A then linesep else [c]) s)"

text \<open>
  Opening a file for writing truncates it before anything is written. What the
  operating system does to a write is an input of the model: the write goes through,
  the open is refused with an exception (the file is untouched), or the write breaks
  off with an exception after some characters, which leaves the truncated file with
  what was written so far.
\<close>

datatype fault = NoFault | OpenFails exn | WriteFails nat exn

fun write_file :: "fault \<Rightarrow> path \<Rightarrow> string \<Rightarrow> world \<Rightarrow> (exn + unit) \<times> world" where
  "write_file NoFault p s w = (Inr (), w\<lparr>files := (files w)(p \<mapsto> s)\<rparr>)"
| "write_file (OpenFails e) p s w = (Inl e, w)"
| "write_file (WriteFails k e) p s w = (Inl e, w\<lparr>files := (files w)(p \<mapsto> take k s)\<rparr>)"

text \<open>
  A document as PyMuPDF hands it out: its pages in physical order, each the outcome of
  \<^verbatim>\<open>load_page(i).get_text()\<close>, the page's text or the exception raised.
\<close>

type_synonym document = "(exn + string) list"

text \<open>
  The calls into PyMuPDF, LangChain, FAISS, Transformers and \<^verbatim>\<open>pickle\<close> are parameters:
  each gives the value returned or the exception raised. \<open>'e\<close> is the embedding model,
  \<open>'i\<close> the vector store, \<open>'l\<close> the language-model pipeline, \<open>'q\<close> the question-answering
  chain.
  \<^item> \<open>read_fault\<close>, \<open>write_fault\<close>, \<open>linesep\<close>: what happens to the read of the stage's
    input file and to the write of its output file, and the platform's line separator.
  \<^item> \<open>fitz_open p c\<close>: \<^verbatim>\<open>fitz.open(p)\<close>, where \<open>c\<close> is the content of the file at \<open>p\<close>, or
    \<open>None\<close> when there is no such file.
  \<^item> \<open>split_text size overlap text\<close>: the splitter built with these parameters, applied
    to the text.
  \<^item> \<open>pickle_dumps\<close>, \<open>pickle_loads\<close>: the bytes \<^verbatim>\<open>pickle.dump\<close> writes for a list of
    strings, and \<^verbatim>\<open>pickle.load\<close> of a file's bytes.
  \<^item> \<open>HuggingFaceEmbeddings\<close>, \<open>from_texts\<close>: loading the embedding model, and
    \<^verbatim>\<open>FAISS.from_texts\<close>.
  \<^item> \<open>save_local store p fs\<close>: \<^verbatim>\<open>store.save_local(p)\<close> run on the files \<open>fs\<close>. The call
    makes the folder \<open>p\<close> and writes the files of the index into it; all of that is
    the library's code, so the model takes the exception raised, if any, and the
    files the call leaves behind, whatever they are.
  \<^item> \<open>load_local p fs embeddings\<close>: \<^verbatim>\<open>FAISS.load_local(p, embeddings, ...)\<close> run on the
    files \<open>fs\<close>.
  \<^item> \<open>load_llm\<close>: tokenizer, model and pipeline, loaded one after the other with no
    print in between; \<open>from_chain_type\<close>: \<^verbatim>\<open>RetrievalQA.from_chain_type\<close>; \<open>invoke\<close>: the
    chain's answer and the \<^verbatim>\<open>page_content\<close> of each source document.
\<close>

record ('e, 'i, 'l, 'q) env =
  read_fault :: "exn option"
  write_fault :: fault
  linesep :: string
  fitz_open :: "path \<Rightarrow> string option \<Rightarrow> exn + document"
  split_text :: "nat \<Rightarrow> nat \<Rightarrow> string \<Rightarrow> exn + string list"
  pickle_dumps :: "string list \<Rightarrow> string"
  pickle_loads :: "string \<Rightarrow> exn + string list"
  HuggingFaceEmbeddings :: "string \<Rightarrow> exn + 'e"
  from_texts :: "string list \<Rightarrow> 'e \<Rightarrow> exn + 'i"
  save_local :: "'i \<Rightarrow> path \<Rightarrow> (path \<rightharpoonup> string) \<Rightarrow> exn option \<times> (path \<rightharpoonup> string)"
  load_local :: "path \<Rightarrow> (path \<rightharpoonup> string) \<Rightarrow> 'e \<Rightarrow> exn + 'i"
  load_llm :: "string \<Rightarrow> exn + 'l"
  from_chain_type :: "'l \<Rightarrow> 'i \<Rightarrow> exn + 'q"
  invoke :: "'q \<Rightarrow> string \<Rightarrow> exn + string \<times> string list"

section \<open>Stage 1: the Extractor (cells 9c5e297a and c37a030c)\<close>

definition pdf_path :: path where
  "pdf_path = ''NASDAQ_AAPL_2024.pdf''"

definition output_text_file :: path where
  "output_text_file = ''extracted_report_text.txt''"

text \<open>The page loop: \<open>page_num\<close> counts from 0 and \<open>full_text\<close> grows by one marker
  line and one page text per page.\<close>

fun extract_pages :: "document \<Rightarrow> nat \<Rightarrow> string \<Rightarrow> exn + string" where
  "extract_pages [] page_num full_text = Inr full_text"
| "extract_pages (page # rest) page_num full_text =
     (case page of
        Inl e \<Rightarrow> Inl e
      | Inr page_text \<Rightarrow>
          extract_pages rest (page_num + 1)
            ((full_text @ ''\<newline>--- Page '' @ str_nat (page_num + 1) @ '' ---\<newline>'')
              @ page_text))"

definition extractor_try :: "('e, 'i, 'l, 'q) env \<Rightarrow> world \<Rightarrow> (exn + unit) \<times> world" where
  "extractor_try env w =
     (case fitz_open env pdf_path (files w pdf_path) of
        Inl e \<Rightarrow> (Inl e, w)
      | Inr doc \<Rightarrow>
          (case extract_pages doc 0 [] of
             Inl e \<Rightarrow> (Inl e, w)
           | Inr full_text \<Rightarrow>
               (case write_file (write_fault env) output_text_file
                       (write_newlines (linesep env) full_text) w of
                  (Inl e, w1) \<Rightarrow> (Inl e, w1)
                | (Inr u, w1) \<Rightarrow>
                    (Inr (),
                     print (take 1000 full_text)
                       (print ''\<newline>--- PREVIEW OF EXTRACTED TEXT ---''
                         (print (''Full text saved to '' @ quoted output_text_file)
                           (print ('' Success! Extracted '' @ str_nat (length doc) @ '' pages.'')
                              w1)))))))"

definition extractor :: "('e, 'i, 'l, 'q) env \<Rightarrow> world \<Rightarrow> world" where
  "extractor env w =
     (case extractor_try env w of
        (Inr u, w1) \<Rightarrow> w1
      | (Inl (FileNotFoundError m), w1) \<Rightarrow>
          print ''Please make sure the PDF file is in the same directory as this script and the filename is correct.''
            (print ('' Error: The file '' @ quoted pdf_path @ '' was not found.'') w1)
      | (Inl e, w1) \<Rightarrow> print (''An unexpected error occurred: '' @ str_exn e) w1)"

section \<open>Stage 2: the Chunker (cells 045594de and 5c17b777)\<close>

definition input_text_file :: path where
  "input_text_file = ''extracted_report_text.txt''"

definition output_chunks_file :: path where
  "output_chunks_file = ''report_chunks.pkl''"

definition chunk_size :: nat where
  "chunk_size = 1000"

definition chunk_overlap :: nat where
  "chunk_overlap = 200"

text \<open>
  The splitter is LangChain's \<^verbatim>\<open>RecursiveCharacterTextSplitter\<close>, built with the chunk
  size, the overlap and \<^verbatim>\<open>length_function=len\<close>. How it cuts the text is the library's
  code, which the notebook does not contain: the model takes the construction and the
  call \<^verbatim>\<open>split_text(full_text)\<close> together as the parameter \<open>split_text\<close>.
\<close>

definition chunker_try :: "('e, 'i, 'l, 'q) env \<Rightarrow> world \<Rightarrow> (exn + unit) \<times> world" where
  "chunker_try env w =
     (case read_file (read_fault env) input_text_file w of
        Inl e \<Rightarrow> (Inl e, w)
      | Inr stored \<Rightarrow>
          (let full_text = universal_newlines stored;
               w1 = print ''Successfully loaded the extracted text file.'' w in
           case split_text env chunk_size chunk_overlap full_text of
             Inl e \<Rightarrow> (Inl e, w1)
           | Inr chunks \<Rightarrow>
               (case write_file (write_fault env) output_chunks_file (pickle_dumps env chunks) w1 of
                  (Inl e, w2) \<Rightarrow> (Inl e, w2)
                | (Inr u, w2) \<Rightarrow>
                    (let w3 = print ''\<newline>--- PREVIEW OF FIRST CHUNK ---''
                                (print (''Chunks saved to '' @ quoted output_chunks_file)
                                  (print (''\<newline> Success! The document was split into ''
                                            @ str_nat (length chunks) @ '' chunks.'') w2))
                     in case py_index chunks 0 of
                          Inl e \<Rightarrow> (Inl e, w3)
                        | Inr first_chunk \<Rightarrow> (Inr (), print first_chunk w3)))))"

definition chunker :: "('e, 'i, 'l, 'q) env \<Rightarrow> world \<Rightarrow> world" where
  "chunker env w =
     (case chunker_try env w of
        (Inr u, w1) \<Rightarrow> w1
      | (Inl (FileNotFoundError m), w1) \<Rightarrow>
          print ''Please make sure you have successfully run the previous extraction step.''
            (print ('' Error: The file '' @ quoted input_text_file @ '' was not found.'') w1)
      | (Inl e, w1) \<Rightarrow> print (''An unexpected error occurred: '' @ str_exn e) w1)"

section \<open>Stage 3: the Indexer (cells b4f48359 and 5dcf202e)\<close>

definition input_chunks_file :: path where
  "input_chunks_file = ''report_chunks.pkl''"

definition faiss_index_path :: path where
  "faiss_index_path = ''faiss_index''"

definition model_name :: string where
  "model_name = ''sentence-transformers/all-MiniLM-L6-v2''"

definition indexer_try :: "('e, 'i, 'l, 'q) env \<Rightarrow> world \<Rightarrow> (exn + unit) \<times> world" where
  "indexer_try env w =
     (case read_file (read_fault env) input_chunks_file w of
        Inl e \<Rightarrow> (Inl e, w)
      | Inr bytes \<Rightarrow>
          (case pickle_loads env bytes of
             Inl e \<Rightarrow> (Inl e, w)
           | Inr chunks \<Rightarrow>
               (let w1 = print (''Initializing embedding model: '' @ model_name)
                           (print (''Successfully loaded '' @ str_nat (length chunks)
                                     @ '' chunks from '' @ quoted input_chunks_file @ ''.'') w)
                in case HuggingFaceEmbeddings env model_name of
                     Inl e \<Rightarrow> (Inl e, w1)
                   | Inr embeddings \<Rightarrow>
                       (let w2 = print ''Creating vector store from chunks. This may take a moment...'' w1
                        in case from_texts env chunks embeddings of
                             Inl e \<Rightarrow> (Inl e, w2)
                           | Inr vectorstore \<Rightarrow>
                               (case save_local env vectorstore faiss_index_path (files w2) of
                                  (Some e, fs) \<Rightarrow> (Inl e, w2\<lparr>files := fs\<rparr>)
                                | (None, fs) \<Rightarrow>
                                    (Inr (),
                                     print (''\<newline> Success! Vector store created and saved to ''
                                              @ quoted faiss_index_path @ ''.'')
                                       (w2\<lparr>files := fs\<rparr>)))))))"

definition indexer :: "('e, 'i, 'l, 'q) env \<Rightarrow> world \<Rightarrow> world" where
  "indexer env w =
     (case indexer_try env w of
        (Inr u, w1) \<Rightarrow> w1
      | (Inl (FileNotFoundError m), w1) \<Rightarrow>
          print ''Please make sure you have successfully run the previous chunking step.''
            (print ('' Error: The file '' @ quoted input_chunks_file @ '' was not found.'') w1)
      | (Inl e, w1) \<Rightarrow> print (''An unexpected error occurred: '' @ str_exn e) w1)"

section \<open>Stage 4: the Query Engine (cells c7fe4c19 and e2550bf8)\<close>

definition llm_model_name :: string where
  "llm_model_name = ''google/flan-t5-base''"

definition question :: string where
  "question = ''What were the main risks identified by the company?''"

text \<open>The page label of a retrieved chunk: the last word of the chunk's second line,
  with the \<^verbatim>\<open>IndexError\<close> of either index caught by the inner handler.\<close>

definition page_info :: "string \<Rightarrow> string" where
  "page_info page_content =
     (case py_index (str_splitlines page_content) 1 of
        Inl e \<Rightarrow> ''(Page number not found)''
      | Inr line \<Rightarrow>
          (case py_index (str_split line) (- 1) of
             Inl e \<Rightarrow> ''(Page number not found)''
           | Inr word \<Rightarrow> ''(from Page '' @ word @ '')''))"

fun print_sources :: "nat \<Rightarrow> string list \<Rightarrow> world \<Rightarrow> world" where
  "print_sources i [] w = w"
| "print_sources i (page_content # rest) w =
     print_sources (i + 1) rest
       (print (replicate 20 CHR ''-'')
         (print (take 300 page_content @ ''...'')
           (print (''Source '' @ str_nat (i + 1) @ '' '' @ page_info page_content @ '':'') w)))"

definition query_engine_try :: "('e, 'i, 'l, 'q) env \<Rightarrow> world \<Rightarrow> (exn + unit) \<times> world" where
  "query_engine_try env w =
     (let w1 = print ''Loading embedding model...'' w in
      case HuggingFaceEmbeddings env model_name of
        Inl e \<Rightarrow> (Inl e, w1)
      | Inr embeddings \<Rightarrow>
          (let w2 = print ''Loading FAISS vector store...'' w1 in
           case load_local env faiss_index_path (files w) embeddings of
             Inl e \<Rightarrow> (Inl e, w2)
           | Inr vectorstore \<Rightarrow>
               (let w3 = print (''Loading LLM: '' @ llm_model_name @ ''. This might take a while...'')
                           (print ''Vector store loaded successfully.'' w2)
                in case load_llm env llm_model_name of
                     Inl e \<Rightarrow> (Inl e, w3)
                   | Inr llm \<Rightarrow>
                       (let w4 = print ''LLM pipeline created.'' w3 in
                        case from_chain_type env llm vectorstore of
                          Inl e \<Rightarrow> (Inl e, w4)
                        | Inr qa_chain \<Rightarrow>
                            (let w5 = print (''\<newline>Asking question: '' @ question)
                                        (print ''Q&A chain is ready.'' w4)
                             in case invoke env qa_chain question of
                                  Inl e \<Rightarrow> (Inl e, w5)
                                | Inr (result, source_documents) \<Rightarrow>
                                    (Inr (),
                                     print_sources 0 source_documents
                                       (print ''\<newline>--- RELEVANT SOURCES ---''
                                         (print result
                                           (print ''\<newline>--- ANSWER ---'' w5)))))))))"

definition query_engine :: "('e, 'i, 'l, 'q) env \<Rightarrow> world \<Rightarrow> world" where
  "query_engine env w =
     (case query_engine_try env w of
        (Inr u, w1) \<Rightarrow> w1
      | (Inl e, w1) \<Rightarrow> print (''An unexpected error occurred: '' @ str_exn e) w1)"

section \<open>Notions used to state the properties\<close>

subsection \<open>Markers and their occurrences\<close>

text \<open>The marker of page \<open>n\<close>, without the newlines the loop writes around it.\<close>

definition page_marker :: "nat \<Rightarrow> string" where
  "page_marker n = ''--- Page '' @ str_nat n @ '' ---''"

text \<open>
  The positions at which a pattern occurs in a text, in increasing order: \<open>i\<close> is
  listed when the pattern is a prefix of the text from position \<open>i\<close> on.
\<close>

primrec occurrences :: "'a list \<Rightarrow> 'a list \<Rightarrow> nat list" where
  "occurrences p [] = (if p = [] then [0] else [])"
| "occurrences p (x # xs) =
     (if prefix p (x # xs) then [0] else []) @ map Suc (occurrences p xs)"

text \<open>The slice \<^verbatim>\<open>s[a:b]\<close>.\<close>

definition slice :: "nat \<Rightarrow> nat \<Rightarrow> 'a list \<Rightarrow> 'a list" where
  "slice a b s = take (b - a) (drop a s)"

text \<open>
  What the page loop is shown to build from the page texts \<open>ts\<close>, the first of them
  being page \<open>n + 1\<close>: a marker line and the page's text, page after page.
\<close>

fun marked_pages :: "nat \<Rightarrow> string list \<Rightarrow> string" where
  "marked_pages n [] = []"
| "marked_pages n (t # ts) =
     ''\<newline>'' @ page_marker (Suc n) @ ''\<newline>'' @ t @ marked_pages (Suc n) ts"

text \<open>Where the marker of page \<open>k + 1\<close> starts in the text built from \<open>pages\<close>.\<close>

definition marker_pos :: "string list \<Rightarrow> nat \<Rightarrow> nat" where
  "marker_pos pages k = Suc (length (marked_pages 0 (take k pages)))"

text \<open>The number a string of decimal digits denotes, read onto the accumulator \<open>a\<close>.\<close>

fun digits_val :: "string \<Rightarrow> nat \<Rightarrow> nat" where
  "digits_val [] a = a"
| "digits_val (c # cs) a = digits_val cs (10 * a + (of_char c - 48))"

subsection \<open>What each stage computes before it writes\<close>






subsection \<open>Concrete inputs\<close>

text \<open>
  An environment to run the stages in on concrete files. Reads go through, writes
  meet the fault \<open>f\<close>, the line separator is LF. PyMuPDF yields the document \<open>doc\<close> for
  any file that exists, without looking at the stored string, which only stands for
  the file's bytes; for a path that does not exist it raises its own
  \<^verbatim>\<open>FileNotFoundError\<close>, a subclass of \<^verbatim>\<open>RuntimeError\<close> and not the built-in class of that
  name. The splitter returns the whole text as one chunk. \<^verbatim>\<open>save_local\<close> writes the two
  files of the index into the folder, and \<^verbatim>\<open>load_local\<close> raises the \<^verbatim>\<open>RuntimeError\<close> of
  the FAISS reader when the first of them is not there.
\<close>

definition sample_env :: "document \<Rightarrow> fault \<Rightarrow> (unit, unit, unit, unit) env" where
  "sample_env doc f =
     \<lparr>read_fault = None,
      write_fault = f,
      linesep = ''\<newline>'',
      fitz_open = (\<lambda>p c. case c of
                       None \<Rightarrow> Inl (Exception (''no such file: '' @ quoted p))
                     | Some b \<Rightarrow> Inr doc),
      split_text = (\<lambda>size overlap text. Inr [text]),
      pickle_dumps = concat,
      pickle_loads = (\<lambda>b. Inr [b]),
      HuggingFaceEmbeddings = (\<lambda>n. Inr ()),
      from_texts = (\<lambda>ts e. Inr ()),
      save_local = (\<lambda>store p fs.
                      (None, fs(p @ ''/index.faiss'' \<mapsto> ''vectors'', p @ ''/index.pkl'' \<mapsto> ''texts''))),
      load_local = (\<lambda>p fs e. case fs (p @ ''/index.faiss'') of
                        None \<Rightarrow> Inl (Exception (''could not open '' @ p
                                   @ ''/index.faiss for reading: No such file or directory''))
                      | Some b \<Rightarrow> Inr ()),
      load_llm = (\<lambda>n. Inr ()),
      from_chain_type = (\<lambda>l i. Inr ()),
      invoke = (\<lambda>q s. Inr (''An answer.'', []))\<rparr>"

text \<open>A directory with no files, and one after an earlier run of the first two stages.\<close>

definition empty_world :: world where
  "empty_world = \<lparr>files = Map.empty, stdout = []\<rparr>"

definition sample_world :: world where
  "sample_world =
     \<lparr>files = [pdf_path \<mapsto> ''%PDF-1.7'', input_text_file \<mapsto> ''Apple Inc.'',
               output_chunks_file \<mapsto> ''chunks of an earlier run''],
      stdout = []\<rparr>"

section \<open>Lemmas\<close>

subsection \<open>Decimal numerals\<close>

lemma of_char_digit: "(n::nat) < 10 \<Longrightarrow> (of_char (char_of (48 + n)) :: nat) = 48 + n"
  by simp

lemma str_nat_digits: "c \<in> set (str_nat n) \<Longrightarrow> 48 \<le> (of_char c :: nat) \<and> (of_char c :: nat) \<le> 57"
proof (induction n rule: str_nat.induct)
  case (1 n)
  show ?case
  proof (cases "n < 10")
    case True
    with "1.prems" have "c = char_of (48 + n)" by (simp add: str_nat.simps)
    with True show ?thesis by simp
  next
    case False
    with "1.prems" have "c \<in> set (str_nat (n div 10)) \<or> c = char_of (48 + n mod 10)"
      by (subst (asm) str_nat.simps) auto
    then show ?thesis
    proof
      assume "c \<in> set (str_nat (n div 10))"
      with "1.IH" False show ?thesis by simp
    next
      assume c: "c = char_of (48 + n mod 10)"
      have "n mod 10 < 10" by simp
      then have "(of_char (char_of (48 + n mod 10)) :: nat) = 48 + n mod 10" by (rule of_char_digit)
      with c show ?thesis by simp
    qed
  qed
qed

lemma digits_val_append: "digits_val (xs @ ys) a = digits_val ys (digits_val xs a)"
  by (induction xs arbitrary: a) simp_all

lemma digits_val_str_nat: "digits_val (str_nat n) 0 = n"
proof (induction n rule: str_nat.induct)
  case (1 n)
  show ?case
  proof (cases "n < 10")
    case True
    then show ?thesis by (simp add: str_nat.simps)
  next
    case False
    have "n mod 10 < 10" by simp
    then have d: "(of_char (char_of (48 + n mod 10)) :: nat) = 48 + n mod 10" by (rule of_char_digit)
    from False have "str_nat n = str_nat (n div 10) @ [char_of (48 + n mod 10)]"
      by (subst str_nat.simps) simp
    then have "digits_val (str_nat n) 0 = 10 * digits_val (str_nat (n div 10)) 0 + n mod 10"
      using d by (simp add: digits_val_append)
    with "1.IH" False show ?thesis by simp
  qed
qed

lemma str_nat_inj: "str_nat m = str_nat n \<Longrightarrow> m = n"
  by (metis digits_val_str_nat)

subsection \<open>Occurrences of a pattern\<close>

lemma prefix_sep_left:
  assumes "c \<notin> set p"
  shows "prefix p (A @ c # B) \<longleftrightarrow> prefix p A"
proof
  assume "prefix p (A @ c # B)"
  then consider "prefix p A" | us where "p = A @ us" "prefix us (c # B)"
    by (auto simp: prefix_append)
  then show "prefix p A"
  proof cases
    case 1 then show ?thesis .
  next
    case 2
    with assms have "us = []" by (cases us) auto
    with 2 show ?thesis by simp
  qed
next
  assume "prefix p A" then show "prefix p (A @ c # B)" by (simp add: prefix_prefix)
qed

lemma occurrences_sep:
  assumes "p \<noteq> []" "c \<notin> set p"
  shows "occurrences p (A @ c # B) =
         occurrences p A @ map (\<lambda>i. i + Suc (length A)) (occurrences p B)"
proof (induction A)
  case Nil
  from assms have "\<not> prefix p (c # B)" by (cases p) auto
  with assms show ?case by simp
next
  case (Cons a A)
  have "prefix p (a # A @ c # B) \<longleftrightarrow> prefix p (a # A)"
    using prefix_sep_left [OF assms(2), of "a # A" B] by simp
  with Cons show ?case by simp
qed

lemma occurrences_skip:
  assumes "p \<noteq> []" "hd p \<notin> set X"
  shows "occurrences p (X @ Y) = map (\<lambda>i. i + length X) (occurrences p Y)"
  using assms(2)
proof (induction X)
  case Nil
  show ?case by simp
next
  case (Cons x X)
  with assms(1) have "\<not> prefix p (x # X @ Y)" by (cases p) auto
  with Cons show ?case by simp
qed

lemma occurrences_bound: "i \<in> set (occurrences p s) \<Longrightarrow> i + length p \<le> length s"
proof (induction s arbitrary: i)
  case Nil
  then show ?case by (simp split: if_splits)
next
  case (Cons x xs)
  then show ?case by (auto split: if_splits dest: prefix_length_le)
qed

lemma occurrences_short: "length s < length p \<Longrightarrow> occurrences p s = []"
proof (rule ccontr)
  assume l: "length s < length p" and "occurrences p s \<noteq> []"
  then obtain i where "i \<in> set (occurrences p s)" by (cases "occurrences p s") auto
  from occurrences_bound [OF this] l show False by simp
qed

subsection \<open>A marker inside a marker\<close>

lemma prefix_digits_space:
  assumes "c \<notin> set A" "c \<notin> set B"
  shows "prefix (A @ c # X) (B @ c # Y) \<longleftrightarrow> A = B \<and> prefix X Y"
  using assms
proof (induction A arbitrary: B)
  case Nil
  then show ?case by (cases B) auto
next
  case (Cons a A)
  then show ?case by (cases B) auto
qed

lemma str_nat_no_char:
  assumes "(of_char c :: nat) < 48 \<or> 57 < (of_char c :: nat)"
  shows "c \<notin> set (str_nat n)"
  using assms str_nat_digits [of c n] by auto

lemma page_marker_not_Nil: "page_marker n \<noteq> []"
  by (simp add: page_marker_def)

lemma newline_notin_marker: "CHR ''\<newline>'' \<notin> set (page_marker n)"
  using str_nat_no_char [of "CHR ''\<newline>''" n] by (simp add: page_marker_def)

lemma hd_page_marker: "hd (page_marker n) = CHR ''-''"
  by (simp add: page_marker_def)

lemma prefix_marker_marker: "prefix (page_marker j) (page_marker i) \<longleftrightarrow> i = j"
proof -
  have sp: "CHR '' '' \<notin> set (str_nat j)" "CHR '' '' \<notin> set (str_nat i)"
    by (rule str_nat_no_char, simp)+
  have "prefix (page_marker j) (page_marker i) \<longleftrightarrow>
        prefix (str_nat j @ CHR '' '' # ''---'') (str_nat i @ CHR '' '' # ''---'')"
    by (simp add: page_marker_def)
  also have "\<dots> \<longleftrightarrow> str_nat j = str_nat i"
    using prefix_digits_space [OF sp] by simp
  also have "\<dots> \<longleftrightarrow> i = j"
    using str_nat_inj by auto
  finally show ?thesis .
qed

lemma occurrences_marker_tail:
  "occurrences (page_marker j) (str_nat i @ '' ---'') = []"
proof -
  have d: "hd (page_marker j) \<notin> set (str_nat i)"
    unfolding hd_page_marker by (rule str_nat_no_char) simp
  have "occurrences (page_marker j) '' ---'' = []"
    by (rule occurrences_short) (simp add: page_marker_def)
  with occurrences_skip [OF page_marker_not_Nil d, of "'' ---''"] show ?thesis by simp
qed

lemma occurrences_Cons_tail_empty:
  "occurrences p xs = [] \<Longrightarrow> occurrences p (x # xs) = (if prefix p (x # xs) then [0] else [])"
  by simp

lemma occurrences_marker_marker:
  "occurrences (page_marker j) (page_marker i) = (if i = j then [0] else [])"
proof -
  let ?p = "page_marker j"
  let ?t = "str_nat i @ '' ---''"
  have t: "occurrences ?p ?t = []" by (rule occurrences_marker_tail)
  have n1: "\<not> prefix ?p (''-- Page '' @ ?t)" by (simp add: page_marker_def)
  have n2: "\<not> prefix ?p (''- Page '' @ ?t)" by (simp add: page_marker_def)
  have n3: "\<not> prefix ?p ('' Page '' @ ?t)" by (simp add: page_marker_def)
  have n4: "\<not> prefix ?p (''Page '' @ ?t)" by (simp add: page_marker_def)
  have n5: "\<not> prefix ?p (''age '' @ ?t)" by (simp add: page_marker_def)
  have n6: "\<not> prefix ?p (''ge '' @ ?t)" by (simp add: page_marker_def)
  have n7: "\<not> prefix ?p (''e '' @ ?t)" by (simp add: page_marker_def)
  have n8: "\<not> prefix ?p ('' '' @ ?t)" by (simp add: page_marker_def)
  have r: "occurrences ?p (''-- Page '' @ ?t) = []"
    using n1 n2 n3 n4 n5 n6 n7 n8 t by simp
  have e: "page_marker i = CHR ''-'' # (''-- Page '' @ ?t)" by (simp add: page_marker_def)
  have "occurrences ?p (CHR ''-'' # (''-- Page '' @ ?t)) =
        (if prefix ?p (CHR ''-'' # (''-- Page '' @ ?t)) then [0] else [])"
    by (rule occurrences_Cons_tail_empty [OF r])
  then have "occurrences ?p (page_marker i) = (if prefix ?p (page_marker i) then [0] else [])"
    by (simp only: e [symmetric])
  then show ?thesis by (simp add: prefix_marker_marker)
qed

subsection \<open>The page loop\<close>

lemma extract_pages_marked:
  "extract_pages (map Inr ts) n acc = Inr (acc @ marked_pages n ts)"
  by (induction ts arbitrary: n acc) (simp_all add: page_marker_def)

lemma marked_pages_head: "marked_pages n ts = [] \<or> hd (marked_pages n ts) = CHR ''\<newline>''"
  by (cases ts) simp_all

lemma marked_pages_append:
  "marked_pages n (xs @ ys) = marked_pages n xs @ marked_pages (n + length xs) ys"
  by (induction xs arbitrary: n) simp_all

lemma occurrences_before_sep:
  assumes "p \<noteq> []" "c \<notin> set p" "R = [] \<or> hd R = c"
  shows "occurrences p (t @ R) = occurrences p t @ map (\<lambda>i. i + length t) (occurrences p R)"
proof (cases R)
  case Nil
  with assms(1) show ?thesis by simp
next
  case (Cons r R')
  with assms(3) have r: "r = c" by simp
  from assms have "\<not> prefix p (c # R')" by (cases p) auto
  then have "occurrences p (c # R') = map Suc (occurrences p R')" by simp
  with occurrences_sep [OF assms(1,2), of t R'] show ?thesis
    by (simp add: Cons r comp_def)
qed

lemma occurrences_marked_pages:
  assumes "\<forall>t\<in>set ts. occurrences (page_marker j) t = []"
  shows "occurrences (page_marker j) (marked_pages n ts) =
         (if n < j \<and> j \<le> n + length ts
          then [Suc (length (marked_pages n (take (j - Suc n) ts)))] else [])"
  using assms
proof (induction ts arbitrary: n)
  case Nil
  show ?case by (simp add: page_marker_not_Nil)
next
  case (Cons t ts)
  let ?p = "page_marker j"
  let ?m = "page_marker (Suc n)"
  let ?R = "marked_pages (Suc n) ts"
  note nl = newline_notin_marker [of j]
  note ne = page_marker_not_Nil [of j]
  from Cons.prems have t: "occurrences ?p t = []" by simp
  from Cons.prems have IH: "occurrences ?p ?R =
         (if Suc n < j \<and> j \<le> Suc n + length ts
          then [Suc (length (marked_pages (Suc n) (take (j - Suc (Suc n)) ts)))] else [])"
    by (intro Cons.IH) simp
  have a: "occurrences ?p (t @ ?R) = map (\<lambda>i. i + length t) (occurrences ?p ?R)"
    using occurrences_before_sep [OF ne nl marked_pages_head, of t "Suc n" ts] t by simp
  have b: "occurrences ?p (?m @ CHR ''\<newline>'' # (t @ ?R)) =
           (if Suc n = j then [0] else []) @
           map (\<lambda>i. i + Suc (length ?m)) (map (\<lambda>i. i + length t) (occurrences ?p ?R))"
    using occurrences_sep [OF ne nl, of ?m "t @ ?R"] a
    by (simp add: occurrences_marker_marker)
  have c: "occurrences ?p (marked_pages n (t # ts)) =
           map Suc (occurrences ?p (?m @ CHR ''\<newline>'' # (t @ ?R)))"
    using occurrences_sep [OF ne nl, of "[]" "?m @ CHR ''\<newline>'' # (t @ ?R)"] ne
    by (simp add: comp_def)
  show ?case
  proof (cases "Suc n = j")
    case True
    then show ?thesis unfolding c b IH by simp
  next
    case False
    show ?thesis
    proof (cases "Suc n < j \<and> j \<le> Suc n + length ts")
      case True
      then obtain k where k: "j - Suc n = Suc k" "j - Suc (Suc n) = k"
        by (cases "j - Suc n") auto
      from True False show ?thesis unfolding c b IH by (simp add: k)
    next
      case F2: False
      with False have n: "\<not> (n < j \<and> j \<le> n + length (t # ts))" by auto
      from F2 IH have "occurrences ?p ?R = []" by simp
      with False have "occurrences ?p (marked_pages n (t # ts)) = []" unfolding c b by simp
      with n show ?thesis by (simp only: if_False)
    qed
  qed
qed

lemma marked_pages_split:
  assumes "k < length pages"
  shows "marked_pages n pages =
         marked_pages n (take k pages) @ CHR ''\<newline>'' # page_marker (Suc (n + k)) @
         CHR ''\<newline>'' # pages ! k @ marked_pages (Suc (n + k)) (drop (Suc k) pages)"
proof -
  from assms have "pages = take k pages @ pages ! k # drop (Suc k) pages"
    by (rule id_take_nth_drop)
  then have "marked_pages n pages = marked_pages n (take k pages @ pages ! k # drop (Suc k) pages)"
    by simp
  also have "\<dots> = marked_pages n (take k pages) @
                  marked_pages (n + length (take k pages)) (pages ! k # drop (Suc k) pages)"
    by (rule marked_pages_append)
  also from assms have "n + length (take k pages) = n + k" by simp
  finally show ?thesis by simp
qed

lemma marked_pages_take_Suc:
  assumes "k < length pages"
  shows "marked_pages n (take (Suc k) pages) =
         marked_pages n (take k pages) @ CHR ''\<newline>'' # page_marker (Suc (n + k)) @
         CHR ''\<newline>'' # pages ! k"
proof -
  from assms have "take (Suc k) pages = take k pages @ [pages ! k]"
    by (rule take_Suc_conv_app_nth)
  with assms show ?thesis by (simp add: marked_pages_append)
qed

lemma marker_unique:
  assumes "\<forall>t\<in>set pages. occurrences (page_marker (Suc k)) t = []" "k < length pages"
  shows "occurrences (page_marker (Suc k)) (marked_pages 0 pages) = [marker_pos pages k]"
  using occurrences_marked_pages [OF assms(1), of 0] assms(2) by (simp add: marker_pos_def)

lemma marker_pos_mono: "Suc k < length pages \<Longrightarrow> marker_pos pages k < marker_pos pages (Suc k)"
  by (simp add: marker_pos_def marked_pages_take_Suc)

lemma between_markers:
  assumes "Suc k < length pages"
  shows "slice (marker_pos pages k + length (page_marker (Suc k))) (marker_pos pages (Suc k))
           (marked_pages 0 pages) = CHR ''\<newline>'' # pages ! k @ ''\<newline>''"
proof -
  let ?A = "marked_pages 0 (take k pages)"
  let ?m = "page_marker (Suc k)"
  let ?R = "marked_pages (Suc k) (drop (Suc k) pages)"
  from assms have k: "k < length pages" by simp
  from assms obtain t ts where d: "drop (Suc k) pages = t # ts"
    by (cases "drop (Suc k) pages") auto
  then obtain R' where R: "?R = CHR ''\<newline>'' # R'" by simp
  have full: "marked_pages 0 pages = (?A @ CHR ''\<newline>'' # ?m) @ (CHR ''\<newline>'' # pages ! k @ ''\<newline>'') @ R'"
    using marked_pages_split [OF k, of 0] R by simp
  have a: "marker_pos pages k + length ?m = length (?A @ CHR ''\<newline>'' # ?m)"
    by (simp add: marker_pos_def)
  have b: "marker_pos pages (Suc k) - (marker_pos pages k + length ?m) =
           length (CHR ''\<newline>'' # pages ! k @ ''\<newline>'')"
    using k by (simp add: marker_pos_def marked_pages_take_Suc)
  show ?thesis unfolding slice_def b unfolding a full by simp
qed

lemma after_last_marker:
  assumes "pages \<noteq> []"
  shows "drop (marker_pos pages (length pages - 1) + length (page_marker (length pages)))
           (marked_pages 0 pages) = CHR ''\<newline>'' # last pages"
proof -
  let ?k = "length pages - 1"
  let ?A = "marked_pages 0 (take ?k pages)"
  let ?m = "page_marker (length pages)"
  from assms have k: "?k < length pages" "Suc ?k = length pages" by simp_all
  have l: "pages ! ?k = last pages" using assms by (simp add: last_conv_nth)
  have full: "marked_pages 0 pages = (?A @ CHR ''\<newline>'' # ?m) @ CHR ''\<newline>'' # last pages"
    using marked_pages_split [OF k(1), of 0] k(2) l by simp
  have a: "marker_pos pages ?k + length ?m = length (?A @ CHR ''\<newline>'' # ?m)"
    by (simp add: marker_pos_def)
  show ?thesis unfolding a full by simp
qed

subsection \<open>The files and the output of the stages\<close>

lemma files_print [simp]: "files (print s w) = files w"
  by (simp add: print_def)

lemma stdout_print [simp]: "stdout (print s w) = stdout w @ [s]"
  by (simp add: print_def)

lemma files_print_sources [simp]: "files (print_sources i ds w) = files w"
  by (induction ds arbitrary: i w) simp_all

lemma write_newlines_Nil [simp]: "write_newlines ls [] = []"
  by (simp add: write_newlines_def)

lemma write_newlines_LF [simp]: "write_newlines ''\<newline>'' s = s"
  by (induction s) (simp_all add: write_newlines_def)







lemmas path_defs =
  pdf_path_def output_text_file_def input_text_file_def output_chunks_file_def
  input_chunks_file_def faiss_index_path_def

lemma chunker_missing:
  assumes "files w input_text_file = None"
  shows "chunker env w =
         w\<lparr>stdout := stdout w @
            ['' Error: The file '' @ quoted input_text_file @ '' was not found.'',
             ''Please make sure you have successfully run the previous extraction step.'']\<rparr>"
  using assms by (simp add: chunker_def chunker_try_def read_file_def print_def)

lemma indexer_missing:
  assumes "files w input_chunks_file = None"
  shows "indexer env w =
         w\<lparr>stdout := stdout w @
            ['' Error: The file '' @ quoted input_chunks_file @ '' was not found.'',
             ''Please make sure you have successfully run the previous chunking step.'']\<rparr>"
  using assms by (simp add: indexer_def indexer_try_def read_file_def print_def)

lemma query_engine_load_fails:
  assumes "HuggingFaceEmbeddings env model_name = Inr em"
    "load_local env faiss_index_path (files w) em = Inl e"
  shows "query_engine env w =
         w\<lparr>stdout := stdout w @
            [''Loading embedding model...'', ''Loading FAISS vector store...'',
             ''An unexpected error occurred: '' @ str_exn e]\<rparr>"
  using assms by (simp add: query_engine_def query_engine_try_def print_def)

lemma extractor_success:
  assumes "fitz_open env pdf_path (files w pdf_path) = Inr (map Inr pages)"
    and "write_fault env = NoFault"
  shows "extractor env w =
         w\<lparr>files := (files w)(output_text_file \<mapsto>
                     write_newlines (linesep env) (marked_pages 0 pages)),
           stdout := stdout w @
             ['' Success! Extracted '' @ str_nat (length pages) @ '' pages.'',
              ''Full text saved to '' @ quoted output_text_file,
              ''\<newline>--- PREVIEW OF EXTRACTED TEXT ---'',
              take 1000 (marked_pages 0 pages)]\<rparr>"
  using assms extract_pages_marked [of pages 0 "[]"]
  by (simp add: extractor_def extractor_try_def print_def)

section \<open>The claims\<close>

subsection \<open>C2: page markers in the extracted text\<close>

text \<open>
  Claim C2, as amended. For a document of \<open>N\<close> pages that all yield their text, the
  page loop returns, for the pages 1 to \<open>N\<close> in order, a newline, the marker
  \<^verbatim>\<open>--- Page i ---\<close>, a newline and the text of page \<open>i\<close>, whatever the pages' texts are;
  this is the text the Extractor writes to its output file when the write goes through
  (as it stands where the line separator is LF). When no page's own text contains the
  marker of one of the pages 1 to \<open>N\<close>, then every such marker occurs in the extracted
  text exactly once, the markers stand in strictly increasing page order, the text
  between marker \<open>i\<close> and marker \<open>i + 1\<close> is a newline, the text of page \<open>i\<close> and a
  newline, and after the last marker come a newline and the last page's text.
\<close>

theorem extractor_page_markers:
  "extract_pages (map Inr pages) 0 [] = Inr (marked_pages 0 pages) \<and>
   (\<forall>w. fitz_open env pdf_path (files w pdf_path) = Inr (map Inr pages) \<longrightarrow>
        write_fault env = NoFault \<longrightarrow> linesep env = ''\<newline>'' \<longrightarrow>
        files (extractor env w) output_text_file = Some (marked_pages 0 pages)) \<and>
   ((\<forall>t\<in>set pages. \<forall>j\<in>{1..length pages}. occurrences (page_marker j) t = []) \<longrightarrow>
      (\<forall>i\<in>{1..length pages}.
         length (occurrences (page_marker i) (marked_pages 0 pages)) = 1) \<and>
      (\<forall>i\<in>{1..<length pages}.
         hd (occurrences (page_marker i) (marked_pages 0 pages))
           < hd (occurrences (page_marker (Suc i)) (marked_pages 0 pages)) \<and>
         slice (hd (occurrences (page_marker i) (marked_pages 0 pages)) + length (page_marker i))
               (hd (occurrences (page_marker (Suc i)) (marked_pages 0 pages)))
               (marked_pages 0 pages)
           = ''\<newline>'' @ pages ! (i - 1) @ ''\<newline>'') \<and>
      (pages \<noteq> [] \<longrightarrow>
         drop (hd (occurrences (page_marker (length pages)) (marked_pages 0 pages))
                 + length (page_marker (length pages))) (marked_pages 0 pages)
           = ''\<newline>'' @ last pages))"
proof (intro conjI impI allI)
  let ?full = "marked_pages 0 pages"
  show "extract_pages (map Inr pages) 0 [] = Inr ?full"
    using extract_pages_marked [of pages 0 "[]"] by simp
next
  fix w :: world
  assume "fitz_open env pdf_path (files w pdf_path) = Inr (map Inr pages)"
    and "write_fault env = NoFault" and "linesep env = ''\<newline>''"
  then show "files (extractor env w) output_text_file = Some (marked_pages 0 pages)"
    by (simp add: extractor_success)
next
  let ?full = "marked_pages 0 pages"
  assume clean: "\<forall>t\<in>set pages. \<forall>j\<in>{1..length pages}. occurrences (page_marker j) t = []"
  have occ: "occurrences (page_marker (Suc k)) ?full = [marker_pos pages k]"
    if "k < length pages" for k
  proof (rule marker_unique)
    from that have "Suc k \<in> {1..length pages}" by simp
    with clean show "\<forall>t\<in>set pages. occurrences (page_marker (Suc k)) t = []" by blast
  qed (rule that)
  show "\<forall>i\<in>{1..length pages}. length (occurrences (page_marker i) ?full) = 1"
  proof
    fix i assume "i \<in> {1..length pages}"
    then obtain k where "i = Suc k" "k < length pages" by (cases i) auto
    with occ show "length (occurrences (page_marker i) ?full) = 1" by simp
  qed
  show "\<forall>i\<in>{1..<length pages}.
         hd (occurrences (page_marker i) ?full)
           < hd (occurrences (page_marker (Suc i)) ?full) \<and>
         slice (hd (occurrences (page_marker i) ?full) + length (page_marker i))
               (hd (occurrences (page_marker (Suc i)) ?full)) ?full
           = ''\<newline>'' @ pages ! (i - 1) @ ''\<newline>''"
  proof
    fix i assume "i \<in> {1..<length pages}"
    then obtain k where k: "i = Suc k" "Suc k < length pages" by (cases i) auto
    then have o1: "occurrences (page_marker (Suc k)) ?full = [marker_pos pages k]"
      and o2: "occurrences (page_marker (Suc (Suc k))) ?full = [marker_pos pages (Suc k)]"
      using occ by simp_all
    show "hd (occurrences (page_marker i) ?full)
           < hd (occurrences (page_marker (Suc i)) ?full) \<and>
         slice (hd (occurrences (page_marker i) ?full) + length (page_marker i))
               (hd (occurrences (page_marker (Suc i)) ?full)) ?full
           = ''\<newline>'' @ pages ! (i - 1) @ ''\<newline>''"
      unfolding k(1) o1 o2
      using marker_pos_mono [OF k(2)] between_markers [OF k(2)] by simp
  qed
  assume ne: "pages \<noteq> []"
  then have k: "length pages - 1 < length pages" "Suc (length pages - 1) = length pages"
    by simp_all
  from occ [OF k(1)] k(2)
  have "occurrences (page_marker (length pages)) ?full = [marker_pos pages (length pages - 1)]"
    by simp
  with after_last_marker [OF ne]
  show "drop (hd (occurrences (page_marker (length pages)) ?full)
                 + length (page_marker (length pages))) ?full
           = ''\<newline>'' @ last pages" by simp
qed

text \<open>
  The theorem at a document of two pages, and its first part at a document whose only
  page reads like a marker.
\<close>

theorem extractor_page_markers_witness:
  "extract_pages (map Inr [''Apple'', ''10-K'']) 0 [] =
     Inr ''\<newline>--- Page 1 ---\<newline>Apple\<newline>--- Page 2 ---\<newline>10-K'' \<and>
   length (occurrences (page_marker 1) (marked_pages 0 [''Apple'', ''10-K''])) = 1 \<and>
   length (occurrences (page_marker 2) (marked_pages 0 [''Apple'', ''10-K''])) = 1 \<and>
   hd (occurrences (page_marker 1) (marked_pages 0 [''Apple'', ''10-K'']))
     < hd (occurrences (page_marker 2) (marked_pages 0 [''Apple'', ''10-K''])) \<and>
   slice (hd (occurrences (page_marker 1) (marked_pages 0 [''Apple'', ''10-K'']))
            + length (page_marker 1))
         (hd (occurrences (page_marker 2) (marked_pages 0 [''Apple'', ''10-K''])))
         (marked_pages 0 [''Apple'', ''10-K'']) = ''\<newline>Apple\<newline>'' \<and>
   drop (hd (occurrences (page_marker 2) (marked_pages 0 [''Apple'', ''10-K'']))
            + length (page_marker 2))
        (marked_pages 0 [''Apple'', ''10-K'']) = ''\<newline>10-K'' \<and>
   files (extractor (sample_env (map Inr [''Apple'', ''10-K'']) NoFault) sample_world)
      output_text_file
     = Some ''\<newline>--- Page 1 ---\<newline>Apple\<newline>--- Page 2 ---\<newline>10-K'' \<and>
   extract_pages (map Inr [''--- Page 1 ---'']) 0 [] =
     Inr ''\<newline>--- Page 1 ---\<newline>--- Page 1 ---''"
proof -
  let ?ps = "[''Apple'', ''10-K'']"
  let ?full = "marked_pages 0 ?ps"
  let ?env = "sample_env (map Inr ?ps) NoFault"
  note t = extractor_page_markers [of ?ps ?env]
  note u = extractor_page_markers [of "[''--- Page 1 ---'']" ?env]
  have o: "occurrences (page_marker 1) ''Apple'' = []"
    "occurrences (page_marker 2) ''Apple'' = []"
    "occurrences (page_marker 1) ''10-K'' = []"
    "occurrences (page_marker 2) ''10-K'' = []"
    by code_simp+
  have len: "length ?ps = 2" by simp
  have s: "{1..length ?ps} = {1, 2}" unfolding len by auto
  have h: "\<forall>t\<in>set ?ps. \<forall>j\<in>{1..length ?ps}. occurrences (page_marker j) t = []"
    unfolding s using o by simp
  have f: "?full = ''\<newline>--- Page 1 ---\<newline>Apple\<newline>--- Page 2 ---\<newline>10-K''"
    by code_simp
  have f': "marked_pages 0 [''--- Page 1 ---''] = ''\<newline>--- Page 1 ---\<newline>--- Page 1 ---''"
    by code_simp
  have g: "fitz_open ?env pdf_path (files sample_world pdf_path) = Inr (map Inr ?ps)"
    "write_fault ?env = NoFault" "linesep ?env = ''\<newline>''"
    by (simp_all add: sample_env_def sample_world_def path_defs)
  from t have a: "extract_pages (map Inr ?ps) 0 [] = Inr ?full"
    by (rule conjunct1)
  from t have st: "\<forall>w. fitz_open ?env pdf_path (files w pdf_path) = Inr (map Inr ?ps) \<longrightarrow>
        write_fault ?env = NoFault \<longrightarrow> linesep ?env = ''\<newline>'' \<longrightarrow>
        files (extractor ?env w) output_text_file = Some ?full"
    by (elim conjE)
  from t h have
    c: "\<forall>i\<in>{1..length ?ps}. length (occurrences (page_marker i) ?full) = 1" and
    d: "\<forall>i\<in>{1..<length ?ps}.
         hd (occurrences (page_marker i) ?full)
           < hd (occurrences (page_marker (Suc i)) ?full) \<and>
         slice (hd (occurrences (page_marker i) ?full) + length (page_marker i))
               (hd (occurrences (page_marker (Suc i)) ?full)) ?full
           = ''\<newline>'' @ ?ps ! (i - 1) @ ''\<newline>''" and
    e: "?ps \<noteq> [] \<longrightarrow>
         drop (hd (occurrences (page_marker (length ?ps)) ?full)
                 + length (page_marker (length ?ps))) ?full
           = ''\<newline>'' @ last ?ps"
    by blast+
  have i1: "(1::nat) \<in> {1..length ?ps}" and i2: "(2::nat) \<in> {1..length ?ps}"
    and i3: "(1::nat) \<in> {1..<length ?ps}"
    unfolding len by simp_all
  have S1: "Suc 1 = 2" by simp
  from a f have 1: "extract_pages (map Inr ?ps) 0 [] =
     Inr ''\<newline>--- Page 1 ---\<newline>Apple\<newline>--- Page 2 ---\<newline>10-K''"
    by (simp only:)
  from c i1 have 2: "length (occurrences (page_marker 1) ?full) = 1" by (rule bspec)
  from c i2 have 3: "length (occurrences (page_marker 2) ?full) = 1" by (rule bspec)
  from d i3 have "hd (occurrences (page_marker 1) ?full)
           < hd (occurrences (page_marker (Suc 1)) ?full) \<and>
         slice (hd (occurrences (page_marker 1) ?full) + length (page_marker 1))
               (hd (occurrences (page_marker (Suc 1)) ?full)) ?full
           = ''\<newline>'' @ ?ps ! (1 - 1) @ ''\<newline>''"
    by (rule bspec)
  then have 4: "hd (occurrences (page_marker 1) ?full) < hd (occurrences (page_marker 2) ?full)"
    and 5: "slice (hd (occurrences (page_marker 1) ?full) + length (page_marker 1))
                    (hd (occurrences (page_marker 2) ?full)) ?full = ''\<newline>Apple\<newline>''"
    unfolding S1 by simp_all
  from e have 6: "drop (hd (occurrences (page_marker 2) ?full) + length (page_marker 2)) ?full
                = ''\<newline>10-K''"
    unfolding len by simp
  from st g have "files (extractor ?env sample_world) output_text_file = Some ?full" by blast
  with f have 7: "files (extractor ?env sample_world) output_text_file
     = Some ''\<newline>--- Page 1 ---\<newline>Apple\<newline>--- Page 2 ---\<newline>10-K''"
    by (simp only:)
  from u have "extract_pages (map Inr [''--- Page 1 ---'']) 0 [] =
     Inr (marked_pages 0 [''--- Page 1 ---''])"
    by (rule conjunct1)
  with f' have 8: "extract_pages (map Inr [''--- Page 1 ---'']) 0 [] =
     Inr ''\<newline>--- Page 1 ---\<newline>--- Page 1 ---''"
    by (simp only:)
  from 1 2 3 4 5 6 7 8 show ?thesis by (intro conjI)
qed

text \<open>
  The claim as first stated fails on a page whose own text reads like a marker: the
  loop copies page text unescaped, so the marker of page 1 then occurs twice. And
  between two markers stand the newlines the loop writes around each marker, not the
  page's text alone.
\<close>

theorem extractor_marker_in_page_text_counterexample:
  "extract_pages [Inr ''--- Page 1 ---''] 0 [] = Inr ''\<newline>--- Page 1 ---\<newline>--- Page 1 ---'' \<and>
   occurrences (page_marker 1) ''\<newline>--- Page 1 ---\<newline>--- Page 1 ---'' = [1, 16] \<and>
   extract_pages [Inr ''Apple'', Inr ''10-K''] 0 [] =
     Inr ''\<newline>--- Page 1 ---\<newline>Apple\<newline>--- Page 2 ---\<newline>10-K'' \<and>
   occurrences (page_marker 1) ''\<newline>--- Page 1 ---\<newline>Apple\<newline>--- Page 2 ---\<newline>10-K'' = [1] \<and>
   occurrences (page_marker 2) ''\<newline>--- Page 1 ---\<newline>Apple\<newline>--- Page 2 ---\<newline>10-K'' = [22] \<and>
   slice (1 + length (page_marker 1)) 22
     ''\<newline>--- Page 1 ---\<newline>Apple\<newline>--- Page 2 ---\<newline>10-K'' = ''\<newline>Apple\<newline>''"
  by code_simp

subsection \<open>C4: a missing input file\<close>

text \<open>
  Claim C4, as amended. When the input file of the Chunker or of the Indexer does not
  exist, the stage prints its missing-input report naming that path and leaves every
  file as it was. The Query Engine has no handler of its own for a missing index: once
  the embedding model has loaded, whatever exception the index loader raises, as it
  does when the index is not there, is printed as the general unexpected-error
  report, and again no file changes.
\<close>

theorem missing_input_reports:
  "(files w input_text_file = None \<longrightarrow>
      chunker env w =
        w\<lparr>stdout := stdout w @
           ['' Error: The file '' @ quoted input_text_file @ '' was not found.'',
            ''Please make sure you have successfully run the previous extraction step.'']\<rparr>) \<and>
   (files w input_chunks_file = None \<longrightarrow>
      indexer env w =
        w\<lparr>stdout := stdout w @
           ['' Error: The file '' @ quoted input_chunks_file @ '' was not found.'',
            ''Please make sure you have successfully run the previous chunking step.'']\<rparr>) \<and>
   (HuggingFaceEmbeddings env model_name = Inr em \<longrightarrow>
      load_local env faiss_index_path (files w) em = Inl e \<longrightarrow>
      query_engine env w =
        w\<lparr>stdout := stdout w @
           [''Loading embedding model...'', ''Loading FAISS vector store...'',
            ''An unexpected error occurred: '' @ str_exn e]\<rparr>)"
proof (intro conjI impI)
  assume "files w input_text_file = None"
  then show "chunker env w =
        w\<lparr>stdout := stdout w @
           ['' Error: The file '' @ quoted input_text_file @ '' was not found.'',
            ''Please make sure you have successfully run the previous extraction step.'']\<rparr>"
    by (rule chunker_missing)
next
  assume "files w input_chunks_file = None"
  then show "indexer env w =
        w\<lparr>stdout := stdout w @
           ['' Error: The file '' @ quoted input_chunks_file @ '' was not found.'',
            ''Please make sure you have successfully run the previous chunking step.'']\<rparr>"
    by (rule indexer_missing)
next
  assume "HuggingFaceEmbeddings env model_name = Inr em"
    "load_local env faiss_index_path (files w) em = Inl e"
  then show "query_engine env w =
        w\<lparr>stdout := stdout w @
           [''Loading embedding model...'', ''Loading FAISS vector store...'',
            ''An unexpected error occurred: '' @ str_exn e]\<rparr>"
    by (rule query_engine_load_fails)
qed

text \<open>The theorem in a working directory with no files at all.\<close>

theorem missing_input_reports_witness:
  "chunker (sample_env [] NoFault) empty_world =
     \<lparr>files = Map.empty,
      stdout = ['' Error: The file 'extracted_report_text.txt' was not found.'',
                ''Please make sure you have successfully run the previous extraction step.'']\<rparr> \<and>
   indexer (sample_env [] NoFault) empty_world =
     \<lparr>files = Map.empty,
      stdout = ['' Error: The file 'report_chunks.pkl' was not found.'',
                ''Please make sure you have successfully run the previous chunking step.'']\<rparr> \<and>
   query_engine (sample_env [] NoFault) empty_world =
     \<lparr>files = Map.empty,
      stdout = [''Loading embedding model...'', ''Loading FAISS vector store...'',
                ''An unexpected error occurred: could not open faiss_index/index.faiss for reading: No such file or directory'']\<rparr>"
proof -
  let ?env = "sample_env [] NoFault"
  let ?e = "Exception (''could not open '' @ faiss_index_path
              @ ''/index.faiss for reading: No such file or directory'')"
  note t = missing_input_reports [of empty_world ?env "()" ?e]
  have f: "files empty_world = Map.empty" "stdout empty_world = []"
    by (simp_all add: empty_world_def)
  have h2: "HuggingFaceEmbeddings ?env model_name = Inr ()"
    by (simp add: sample_env_def)
  have h3: "load_local ?env faiss_index_path (files empty_world) () = Inl ?e"
    by (simp add: sample_env_def f)
  have e: "empty_world\<lparr>stdout := stdout empty_world @ xs\<rparr> = \<lparr>files = Map.empty, stdout = xs\<rparr>"
    for xs by (simp add: empty_world_def)
  from t f have "chunker ?env empty_world =
        empty_world\<lparr>stdout := stdout empty_world @
           ['' Error: The file '' @ quoted input_text_file @ '' was not found.'',
            ''Please make sure you have successfully run the previous extraction step.'']\<rparr>"
    by simp
  then have 2: "chunker ?env empty_world =
     \<lparr>files = Map.empty,
      stdout = ['' Error: The file 'extracted_report_text.txt' was not found.'',
                ''Please make sure you have successfully run the previous extraction step.'']\<rparr>"
    unfolding e by (simp add: quoted_def input_text_file_def)
  from t f have "indexer ?env empty_world =
        empty_world\<lparr>stdout := stdout empty_world @
           ['' Error: The file '' @ quoted input_chunks_file @ '' was not found.'',
            ''Please make sure you have successfully run the previous chunking step.'']\<rparr>"
    by simp
  then have 3: "indexer ?env empty_world =
     \<lparr>files = Map.empty,
      stdout = ['' Error: The file 'report_chunks.pkl' was not found.'',
                ''Please make sure you have successfully run the previous chunking step.'']\<rparr>"
    unfolding e by (simp add: quoted_def input_chunks_file_def)
  from t h2 h3 have "query_engine ?env empty_world =
        empty_world\<lparr>stdout := stdout empty_world @
           [''Loading embedding model...'', ''Loading FAISS vector store...'',
            ''An unexpected error occurred: '' @ str_exn ?e]\<rparr>"
    by blast
  then have 4: "query_engine ?env empty_world =
     \<lparr>files = Map.empty,
      stdout = [''Loading embedding model...'', ''Loading FAISS vector store...'',
                ''An unexpected error occurred: could not open faiss_index/index.faiss for reading: No such file or directory'']\<rparr>"
    unfolding e by (simp add: faiss_index_path_def)
  from 2 3 4 show ?thesis by (intro conjI)
qed

text \<open>
  The claim as first stated fails for the Query Engine: with no index in the working
  directory it prints the general report, not a missing-input report of its own.
\<close>

theorem query_engine_missing_index_counterexample:
  "files empty_world = Map.empty \<and>
   stdout (query_engine (sample_env [] NoFault) empty_world) =
     [''Loading embedding model...'', ''Loading FAISS vector store...'',
      ''An unexpected error occurred: could not open faiss_index/index.faiss for reading: No such file or directory'']"
  by (simp add: sample_env_def empty_world_def path_defs query_engine_def
        query_engine_try_def print_def)

text \<open>
  The Extractor is not part of the amended claim. Its cell does have a handler for
  \<^verbatim>\<open>FileNotFoundError\<close>, and which report a missing PDF gets is decided by the class
  of the exception that \<^verbatim>\<open>fitz.open\<close> raises: the missing-input report for the built-in
  class, the general report for every other class. PyMuPDF raises a class of its own,
  so in a directory without the PDF the handler is passed over.
\<close>

lemma extractor_open_fails:
  assumes "fitz_open env pdf_path (files w pdf_path) = Inl e"
  shows "extractor env w =
         w\<lparr>stdout := stdout w @
            (case e of
               FileNotFoundError m \<Rightarrow>
                 ['' Error: The file '' @ quoted pdf_path @ '' was not found.'',
                  ''Please make sure the PDF file is in the same directory as this script and the filename is correct.'']
             | IndexError m \<Rightarrow> [''An unexpected error occurred: '' @ m]
             | Exception m \<Rightarrow> [''An unexpected error occurred: '' @ m])\<rparr>"
  using assms by (cases e) (simp_all add: extractor_def extractor_try_def print_def)

lemma extractor_missing_pdf_run:
  "files empty_world pdf_path = None \<and>
   stdout (extractor (sample_env [] NoFault) empty_world) =
     [''An unexpected error occurred: no such file: '' @ quoted ''NASDAQ_AAPL_2024.pdf'']"
  by (simp add: sample_env_def empty_world_def path_defs extractor_def extractor_try_def print_def)

subsection \<open>C5: the page label of a retrieved chunk\<close>

text \<open>
  Claim C5 asks that a chunk without a well-formed marker line be labelled
  \<^verbatim>\<open>(Page number not found)\<close>. The code takes the last word of the chunk's second line,
  whatever that line is: a chunk that carries no marker at all is labelled with a word
  of its text, and a chunk that starts with the marker of page 12 is labelled with
  the last word of the line after the marker. The recorded run of the notebook shows
  the same labels (\<^verbatim>\<open>Page to\<close>, \<^verbatim>\<open>Page affect\<close>).
\<close>

theorem page_info_last_word_of_second_line:
  "page_info ''subject to the risks of industrial accidents at its suppliers. While the suppliers are\<newline>required to maintain safe working environments, which could result in disruption to\<newline>the business''
     = ''(from Page to)'' \<and>
   page_info ''--- Page 12 ---\<newline>defects that could materially adversely affect\<newline>the business''
     = ''(from Page affect)''"
  by code_simp

subsection \<open>C8: a stage writes only after its transformation\<close>




subsection \<open>C10: a document without pages\<close>

text \<open>
  Claim C10. When PyMuPDF opens the document and it has no pages, and the write goes
  through, the Extractor reports success with the count 0, writes the empty string to
  the output text file and prints an empty preview; the empty string contains no page
  marker.
\<close>

theorem extractor_zero_pages:
  assumes "fitz_open env pdf_path (files w pdf_path) = Inr []"
    and "write_fault env = NoFault"
  shows "extractor env w =
         w\<lparr>files := (files w)(output_text_file \<mapsto> ''''),
           stdout := stdout w @
             ['' Success! Extracted 0 pages.'',
              ''Full text saved to '' @ quoted ''extracted_report_text.txt'',
              ''\<newline>--- PREVIEW OF EXTRACTED TEXT ---'',
              '''']\<rparr> \<and>
         (\<forall>i. occurrences (page_marker i) '''' = [])"
proof -
  have z: "str_nat 0 = ''0''" by code_simp
  from assms have "extractor env w =
         w\<lparr>files := (files w)(output_text_file \<mapsto>
                     write_newlines (linesep env) (marked_pages 0 [])),
           stdout := stdout w @
             ['' Success! Extracted '' @ str_nat (length ([] :: string list)) @ '' pages.'',
              ''Full text saved to '' @ quoted output_text_file,
              ''\<newline>--- PREVIEW OF EXTRACTED TEXT ---'',
              take 1000 (marked_pages 0 [])]\<rparr>"
    by (intro extractor_success) simp_all
  then show ?thesis by (simp add: z output_text_file_def page_marker_not_Nil)
qed

text \<open>The theorem on a directory that holds the PDF.\<close>

theorem extractor_zero_pages_witness:
  "extractor (sample_env [] NoFault) sample_world =
     \<lparr>files = [pdf_path \<mapsto> ''%PDF-1.7'', output_chunks_file \<mapsto> ''chunks of an earlier run'',
               output_text_file \<mapsto> ''''],
      stdout = ['' Success! Extracted 0 pages.'',
                ''Full text saved to '' @ quoted ''extracted_report_text.txt'',
                ''\<newline>--- PREVIEW OF EXTRACTED TEXT ---'',
                '''']\<rparr>"
proof -
  let ?env = "sample_env [] NoFault"
  have h1: "fitz_open ?env pdf_path (files sample_world pdf_path) = Inr []"
    by (simp add: sample_env_def sample_world_def path_defs)
  have h2: "write_fault ?env = NoFault" by (simp add: sample_env_def)
  have f: "(files sample_world)(output_text_file \<mapsto> '''') =
           [pdf_path \<mapsto> ''%PDF-1.7'', output_chunks_file \<mapsto> ''chunks of an earlier run'',
            output_text_file \<mapsto> '''']"
    by (auto simp: sample_world_def path_defs)
  have s: "stdout sample_world = []" by (simp add: sample_world_def)
  have e: "sample_world\<lparr>files := fs, stdout := xs\<rparr> = \<lparr>files = fs, stdout = xs\<rparr>" for fs xs
    by (simp add: sample_world_def)
  from extractor_zero_pages [OF h1 h2] show ?thesis unfolding f s e by simp
qed

end
